theory Spec2Isabelle
  imports Main "HOL-Library.Word"
begin

unbundle bit_operations_syntax

section \<open>Data model\<close>

text \<open>
  The program is the class \<open>FingerprintScanner\<close> of \<open>main.py\<close>. Its state lives in three
  places: the SQLite table \<open>fingerprints\<close>, the template database inside the ZKFP2 device
  (filled by \<open>DBAdd\<close>, emptied by \<open>DBClear\<close>) and the Python object itself.

  A template is a Python \<open>bytes\<close> value, a row of the table is the triple
  \<open>(user_id, fingerprint_template, last_updated)\<close>; \<open>user_id\<close> is a Python integer, the
  other two columns are text. A \<open>char\<close> of HOL is one byte, so the strings of the model
  are the strings over code points below 256.

  The program runs its handlers one at a time, so the lock \<open>db_lock\<close> has no effect
  on what they compute and is left out. The calls into the user interface (dialogs, text
  updates, the rendering and saving of the fingerprint image with PIL) and the logger are
  taken to return normally; of these only \<open>show_dialog\<close> is kept, as an entry of the
  log, because it is how a handler reports its result.
\<close>

type_synonym bytes = "8 word list"

type_synonym row = "int \<times> string \<times> string"

type_synonym poll = "(bytes \<times> bytes) option"

text \<open>The exceptions that the modelled code can meet.\<close>

datatype exn =
    BinasciiError
  | ValueError
  | TypeError
  | OperationalError
  | IntegrityError
  | DatabaseError
  | OverflowError

text \<open>
  \<open>sqlite3.OperationalError\<close> and \<open>sqlite3.IntegrityError\<close> are subclasses of
  \<open>sqlite3.DatabaseError\<close>; \<open>except sqlite3.DatabaseError\<close> catches the three.
\<close>

fun is_DatabaseError :: "exn \<Rightarrow> bool" where
  "is_DatabaseError OperationalError = True"
| "is_DatabaseError IntegrityError = True"
| "is_DatabaseError DatabaseError = True"
| "is_DatabaseError _ = False"

text \<open>
  A function of the program ends in one of three ways: it returns, it raises, or it polls
  the sensor for ever because no finger is ever presented (\<open>Blocked\<close>).
\<close>

datatype outcome = Return | Raise exn | Blocked

text \<open>
  The calls that the program makes on the device, on the store and on the dialog layer
  are logged in call order; the temporal properties are stated on this log.
\<close>

datatype event =
    Ev_AcquireFingerprint poll
  | Ev_DBIdentify bytes int int
  | Ev_DBMerge "bytes list" "bytes option"
  | Ev_DBAdd int bytes
  | Ev_DBClear
  | Ev_insert int string bool
  | Ev_show_dialog string

fun is_DBAdd :: "event \<Rightarrow> bool" where
  "is_DBAdd (Ev_DBAdd _ _) = True"
| "is_DBAdd _ = False"

fun is_DBMerge :: "event \<Rightarrow> bool" where
  "is_DBMerge (Ev_DBMerge _ _) = True"
| "is_DBMerge _ = False"

fun is_insert :: "event \<Rightarrow> bool" where
  "is_insert (Ev_insert _ _ _) = True"
| "is_insert _ = False"

text \<open>The results of the polls that a log records, in order.\<close>

fun polled :: "event list \<Rightarrow> poll list" where
  "polled [] = []"
| "polled (Ev_AcquireFingerprint p # es) = p # polled es"
| "polled (e # es) = polled es"

text \<open>
  The state: \<open>db\<close> is the table \<open>fingerprints\<close> in scan order (\<open>None\<close> while the table
  does not exist), \<open>zk_index\<close> the entries given to the device since its last
  \<open>DBClear\<close>, \<open>sensor\<close> the results of the coming \<open>AcquireFingerprint\<close> calls
  (\<open>None\<close> for a poll without a finger), \<open>trace\<close> the log of calls.
\<close>

record scanner =
  db :: "row list option"
  zk_index :: "(int \<times> bytes) list"
  is_connected :: bool
  sensor :: "poll list"
  trace :: "event list"

text \<open>
  What the program cannot decide itself: the device's matcher (\<open>DBIdentify\<close>, a pair of
  matched id and score, id 0 for no match) and its merger (\<open>DBMerge\<close>, a template or
  nothing, and a length), whether opening the device raises, whether the store's
  \<open>INSERT\<close> meets an I/O fault, and the clock.
\<close>

record device =
  identify :: "(int \<times> bytes) list \<Rightarrow> bytes \<Rightarrow> int \<times> int"
  merge :: "bytes list \<Rightarrow> bytes option \<times> int"
  init_raises :: bool
  insert_fault :: bool
  now :: string

definition emit :: "event \<Rightarrow> scanner \<Rightarrow> scanner" where
  "emit e s = s\<lparr>trace := trace s @ [e]\<rparr>"

section \<open>The template codec: \<open>base64.b64encode\<close> and \<open>base64.b64decode\<close>\<close>

text \<open>
  \<open>b64encode\<close> is the encoder of RFC 4648 with the standard alphabet: three bytes give
  four characters, a rest of one or two bytes is padded with \<open>=\<close>.
\<close>

definition table_b2a_base64 :: string where
  "table_b2a_base64 = ''ABCDEFGHIJKLMNOPQRSTUVWXYZabcdefghijklmnopqrstuvwxyz0123456789+/''"

definition b2a :: "8 word \<Rightarrow> char" where
  "b2a v = table_b2a_base64 ! unat v"

fun b2a_base64 :: "bytes \<Rightarrow> string" where
  "b2a_base64 (x # y # z # rest) =
     b2a (drop_bit 2 x)
     # b2a (push_bit 4 (x AND 3) OR drop_bit 4 y)
     # b2a (push_bit 2 (y AND 15) OR drop_bit 6 z)
     # b2a (z AND 63)
     # b2a_base64 rest"
| "b2a_base64 [x, y] =
     [b2a (drop_bit 2 x), b2a (push_bit 4 (x AND 3) OR drop_bit 4 y),
      b2a (push_bit 2 (y AND 15)), CHR ''='']"
| "b2a_base64 [x] =
     [b2a (drop_bit 2 x), b2a (push_bit 4 (x AND 3)), CHR ''='', CHR ''='']"
| "b2a_base64 [] = []"

definition b64encode :: "bytes \<Rightarrow> string" where
  "b64encode s = b2a_base64 s"

text \<open>
  \<open>b64decode\<close> is called with its defaults, so it is the lenient decoder
  \<open>binascii.a2b_base64\<close> of CPython 3.11 and later: a character outside the alphabet is
  skipped, a \<open>=\<close> counts as padding only once two characters of a quad have been read,
  complete padding ends the input, and an input that stops inside a quad raises
  \<open>binascii.Error\<close>. A \<open>str\<close> argument is first encoded to ASCII, which raises
  \<open>ValueError\<close> on a character of code 128 or more.
\<close>

definition table_a2b_base64 :: "char \<Rightarrow> 8 word option" where
  "table_a2b_base64 c =
     (let n = (of_char c :: nat) in
      if 65 \<le> n \<and> n \<le> 90 then Some (of_nat (n - 65))
      else if 97 \<le> n \<and> n \<le> 122 then Some (of_nat (n - 71))
      else if 48 \<le> n \<and> n \<le> 57 then Some (of_nat (n + 4))
      else if n = 43 then Some 62
      else if n = 47 then Some 63
      else None)"

fun a2b_loop :: "nat \<Rightarrow> 8 word \<Rightarrow> nat \<Rightarrow> bytes \<Rightarrow> string \<Rightarrow> exn + bytes" where
  "a2b_loop quad_pos leftchar pads out [] =
     (if quad_pos \<noteq> 0 then Inl BinasciiError else Inr out)"
| "a2b_loop quad_pos leftchar pads out (c # cs) =
     (if c = CHR ''='' then
        (if 2 \<le> quad_pos \<and> 4 \<le> quad_pos + (pads + 1) then Inr out
         else a2b_loop quad_pos leftchar (if 2 \<le> quad_pos then pads + 1 else pads) out cs)
      else
        (case table_a2b_base64 c of
           None \<Rightarrow> a2b_loop quad_pos leftchar pads out cs
         | Some v \<Rightarrow>
             (if quad_pos = 0 then a2b_loop 1 v 0 out cs
              else if quad_pos = 1 then
                a2b_loop 2 (v AND 15) 0 (out @ [push_bit 2 leftchar OR drop_bit 4 v]) cs
              else if quad_pos = 2 then
                a2b_loop 3 (v AND 3) 0 (out @ [push_bit 4 leftchar OR drop_bit 2 v]) cs
              else a2b_loop 0 0 0 (out @ [push_bit 6 leftchar OR v]) cs)))"

definition a2b_base64 :: "string \<Rightarrow> exn + bytes" where
  "a2b_base64 s = a2b_loop 0 0 0 [] s"

fun is_ascii :: "string \<Rightarrow> bool" where
  "is_ascii [] = True"
| "is_ascii (c # cs) = ((of_char c :: nat) < 128 \<and> is_ascii cs)"

definition b64decode :: "string \<Rightarrow> exn + bytes" where
  "b64decode s = (if is_ascii s then a2b_base64 s else Inl ValueError)"

section \<open>The store\<close>

text \<open>\<open>SELECT MAX(user_id) FROM fingerprints\<close>: \<open>NULL\<close> on an empty table.\<close>

fun sql_max_user_id :: "row list \<Rightarrow> int option" where
  "sql_max_user_id [] = None"
| "sql_max_user_id ((u, t, d) # rs) =
     (case sql_max_user_id rs of None \<Rightarrow> Some u | Some m \<Rightarrow> Some (max u m))"

text \<open>\<open>SELECT * FROM fingerprints WHERE user_id = ?\<close> followed by \<open>fetchone\<close>.\<close>

fun sql_select_by_user_id :: "int \<Rightarrow> row list \<Rightarrow> row option" where
  "sql_select_by_user_id uid [] = None"
| "sql_select_by_user_id uid (r # rs) =
     (if fst r = uid then Some r else sql_select_by_user_id uid rs)"

definition fits_int64 :: "int \<Rightarrow> bool" where
  "fits_int64 n = (- (2 ^ 63) \<le> n \<and> n < 2 ^ 63)"

text \<open>
  \<open>INSERT INTO fingerprints ... VALUES (?, ?, ?)\<close> and \<open>commit\<close>. Preparing the statement
  fails without the table; binding an integer outside 64 bits raises \<open>OverflowError\<close>;
  \<open>user_id\<close> is the primary key, so a second row of the same id is refused. The new
  row is the last of the scan order.
\<close>

definition sql_insert :: "bool \<Rightarrow> row \<Rightarrow> row list option \<Rightarrow> exn + row list" where
  "sql_insert fault r tbl =
     (case tbl of
        None \<Rightarrow> Inl OperationalError
      | Some rows \<Rightarrow>
          if \<not> fits_int64 (fst r) then Inl OverflowError
          else if fault then Inl DatabaseError
          else if fst r \<in> set (map fst rows) then Inl IntegrityError
          else Inr (rows @ [r]))"

definition setup_database :: "scanner \<Rightarrow> scanner" where
  "setup_database s = s\<lparr>db := Some (case db s of None \<Rightarrow> [] | Some rows \<Rightarrow> rows)\<rparr>"

definition get_next_user_id :: "scanner \<Rightarrow> exn + int" where
  "get_next_user_id s =
     (case db s of
        None \<Rightarrow> Inl OperationalError
      | Some rows \<Rightarrow>
          (case sql_max_user_id rows of
             None \<Rightarrow> Inr 1
           | Some result \<Rightarrow> Inr (if result \<noteq> 0 then result + 1 else 1)))"

definition save_fingerprint_to_db ::
  "device \<Rightarrow> int \<Rightarrow> string \<Rightarrow> scanner \<Rightarrow> outcome \<times> scanner" where
  "save_fingerprint_to_db dev user_id fingerprint_template s =
     (case sql_insert (insert_fault dev) (user_id, fingerprint_template, now dev) (db s) of
        Inr rows \<Rightarrow> (Return, emit (Ev_insert user_id fingerprint_template True) (s\<lparr>db := Some rows\<rparr>))
      | Inl e \<Rightarrow>
          (if is_DatabaseError e then Return else Raise e,
           emit (Ev_insert user_id fingerprint_template False) s))"

section \<open>The device and the synchronisation with the store\<close>

definition add_fingerprint_to_zkfp :: "int \<Rightarrow> bytes \<Rightarrow> scanner \<Rightarrow> scanner" where
  "add_fingerprint_to_zkfp user_id fingerprint_template s =
     emit (Ev_DBAdd user_id fingerprint_template)
       (s\<lparr>zk_index := zk_index s @ [(user_id, fingerprint_template)]\<rparr>)"

fun load_rows :: "row list \<Rightarrow> scanner \<Rightarrow> outcome \<times> scanner" where
  "load_rows [] s = (Return, s)"
| "load_rows ((user_id, fingerprint_template_base64, d) # rows) s =
     (case b64decode fingerprint_template_base64 of
        Inl e \<Rightarrow> (Raise e, s)
      | Inr fingerprint_template \<Rightarrow>
          load_rows rows (add_fingerprint_to_zkfp user_id fingerprint_template s))"

definition load_fingerprints_from_db :: "scanner \<Rightarrow> outcome \<times> scanner" where
  "load_fingerprints_from_db s =
     (case db s of
        None \<Rightarrow> (Raise OperationalError, s)
      | Some rows \<Rightarrow> load_rows rows s)"

text \<open>
  \<open>initialize_zkfp2\<close> creates the binding, opens device 0, sets the light and calls
  \<open>DBClear\<close>; an exception of any of these calls is caught and makes it return
  \<open>False\<close>.
\<close>

definition initialize_zkfp2 :: "device \<Rightarrow> scanner \<Rightarrow> bool \<times> scanner" where
  "initialize_zkfp2 dev s =
     (if init_raises dev then (False, s)
      else (True, (emit Ev_DBClear (s\<lparr>zk_index := []\<rparr>))\<lparr>is_connected := True\<rparr>))"

definition connect_to_device :: "device \<Rightarrow> scanner \<Rightarrow> outcome \<times> scanner" where
  "connect_to_device dev s =
     (case initialize_zkfp2 dev s of
        (True, s1) \<Rightarrow>
          load_fingerprints_from_db
            (setup_database (emit (Ev_show_dialog ''Connection Success'') s1))
      | (False, s1) \<Rightarrow> (Return, emit (Ev_show_dialog ''Connection Error'') s1))"

section \<open>Registration\<close>

text \<open>
  The capture loop of \<open>start_register\<close>: \<open>for i in range(3)\<close> around \<open>while True\<close>.
  Every sample is identified against the device at once, and a match ends the
  registration.
\<close>

datatype capture = Captured "bytes list" | Duplicate int | Starved

fun capture_samples ::
  "(bytes \<Rightarrow> int \<times> int) \<Rightarrow> nat \<Rightarrow> bytes list \<Rightarrow> poll list \<Rightarrow> capture \<times> event list \<times> poll list"
where
  "capture_samples ident i templates polls =
     (if 3 \<le> i then (Captured templates, [], polls)
      else
        (case polls of
           [] \<Rightarrow> (Starved, [], [])
         | None # ps \<Rightarrow>
             (case capture_samples ident i templates ps of
                (c, tr, rest) \<Rightarrow> (c, Ev_AcquireFingerprint None # tr, rest))
         | Some (tmp, img) # ps \<Rightarrow>
             (case ident tmp of
                (fid, score) \<Rightarrow>
                  if fid \<noteq> 0 then
                    (Duplicate fid,
                     [Ev_AcquireFingerprint (Some (tmp, img)), Ev_DBIdentify tmp fid score,
                      Ev_show_dialog ''Fingerprint Exists''],
                     ps)
                  else
                    (case capture_samples ident (i + 1) (templates @ [tmp]) ps of
                       (c, tr, rest) \<Rightarrow>
                         (c,
                          Ev_AcquireFingerprint (Some (tmp, img)) # Ev_DBIdentify tmp fid score # tr,
                          rest)))))"

text \<open>The truth value that Python gives to the result of \<open>DBMerge\<close>.\<close>

fun truthy :: "bytes option \<Rightarrow> bool" where
  "truthy None = False"
| "truthy (Some t) = (t \<noteq> [])"

definition start_register :: "device \<Rightarrow> scanner \<Rightarrow> outcome \<times> scanner" where
  "start_register dev s =
     (case capture_samples (identify dev (zk_index s)) 0 [] (sensor s) of
        (Starved, tr, rest) \<Rightarrow> (Blocked, s\<lparr>sensor := rest, trace := trace s @ tr\<rparr>)
      | (Duplicate fid, tr, rest) \<Rightarrow> (Return, s\<lparr>sensor := rest, trace := trace s @ tr\<rparr>)
      | (Captured templates, tr, rest) \<Rightarrow>
          (case merge dev templates of
             (regTemp, regTempLen) \<Rightarrow>
               (let s1 = emit (Ev_DBMerge templates regTemp)
                           (s\<lparr>sensor := rest, trace := trace s @ tr\<rparr>) in
                case regTemp of
                  None \<Rightarrow> (Return, emit (Ev_show_dialog ''Error'') s1)
                | Some regTemp_bytes \<Rightarrow>
                    if regTemp_bytes = [] then (Return, emit (Ev_show_dialog ''Error'') s1)
                    else
                      (case get_next_user_id s1 of
                         Inl e \<Rightarrow> (Raise e, s1)
                       | Inr user_id \<Rightarrow>
                           (case save_fingerprint_to_db dev user_id (b64encode regTemp_bytes)
                                   (add_fingerprint_to_zkfp user_id regTemp_bytes s1) of
                              (Return, s2) \<Rightarrow>
                                (Return, emit (Ev_show_dialog ''Registration Success'') s2)
                            | (out, s2) \<Rightarrow> (out, s2))))))"

text \<open>
  The helper pair \<open>capture_fingerprints\<close> and \<open>register_new_fingerprint\<close>: the same
  capture without the identification. \<open>bytes(regTemp)\<close> comes before the test
  \<open>regTemp is None\<close> and raises \<open>TypeError\<close> on \<open>None\<close>.
\<close>

fun acquire_three :: "nat \<Rightarrow> bytes list \<Rightarrow> poll list \<Rightarrow> bytes list option \<times> event list \<times> poll list"
where
  "acquire_three i templates polls =
     (if 3 \<le> i then (Some templates, [], polls)
      else
        (case polls of
           [] \<Rightarrow> (None, [], [])
         | None # ps \<Rightarrow>
             (case acquire_three i templates ps of
                (c, tr, rest) \<Rightarrow> (c, Ev_AcquireFingerprint None # tr, rest))
         | Some (tmp, img) # ps \<Rightarrow>
             (case acquire_three (i + 1) (templates @ [tmp]) ps of
                (c, tr, rest) \<Rightarrow> (c, Ev_AcquireFingerprint (Some (tmp, img)) # tr, rest))))"

definition capture_fingerprints :: "device \<Rightarrow> scanner \<Rightarrow> (bytes option) option \<times> scanner" where
  "capture_fingerprints dev s =
     (case acquire_three 0 [] (sensor s) of
        (None, tr, rest) \<Rightarrow> (None, s\<lparr>sensor := rest, trace := trace s @ tr\<rparr>)
      | (Some templates, tr, rest) \<Rightarrow>
          (case merge dev templates of
             (regTemp, regTempLen) \<Rightarrow>
               (Some (if truthy regTemp then regTemp else None),
                emit (Ev_DBMerge templates regTemp)
                  (s\<lparr>sensor := rest, trace := trace s @ tr\<rparr>))))"

definition register_new_fingerprint :: "device \<Rightarrow> scanner \<Rightarrow> outcome \<times> scanner" where
  "register_new_fingerprint dev s =
     (case get_next_user_id s of
        Inl e \<Rightarrow> (Raise e, s)
      | Inr user_id \<Rightarrow>
          (case capture_fingerprints dev s of
             (None, s1) \<Rightarrow> (Blocked, s1)
           | (Some None, s1) \<Rightarrow> (Raise TypeError, s1)
           | (Some (Some regTemp), s1) \<Rightarrow>
               save_fingerprint_to_db dev user_id (b64encode regTemp)
                 (add_fingerprint_to_zkfp user_id regTemp s1)))"

section \<open>Identification\<close>

fun await_fingerprint :: "poll list \<Rightarrow> poll \<times> event list \<times> poll list" where
  "await_fingerprint [] = (None, [], [])"
| "await_fingerprint (None # ps) =
     (case await_fingerprint ps of
        (c, tr, rest) \<Rightarrow> (c, Ev_AcquireFingerprint None # tr, rest))"
| "await_fingerprint (Some capture # ps) = (Some capture, [Ev_AcquireFingerprint (Some capture)], ps)"

definition start_identification :: "device \<Rightarrow> scanner \<Rightarrow> outcome \<times> scanner" where
  "start_identification dev s =
     (case await_fingerprint (sensor s) of
        (None, tr, rest) \<Rightarrow> (Blocked, s\<lparr>sensor := rest, trace := trace s @ tr\<rparr>)
      | (Some (tmp, img), tr, rest) \<Rightarrow>
          (case identify dev (zk_index s) tmp of
             (fid, score) \<Rightarrow>
               (let s1 = emit (Ev_DBIdentify tmp fid score)
                           (s\<lparr>sensor := rest, trace := trace s @ tr\<rparr>) in
                if fid \<noteq> 0 then (Return, emit (Ev_show_dialog ''User Identified'') s1)
                else
                  (case get_next_user_id s1 of
                     Inl e \<Rightarrow> (Raise e, s1)
                   | Inr user_id \<Rightarrow>
                       (case db s1 of
                          None \<Rightarrow> (Raise OperationalError, s1)
                        | Some rows \<Rightarrow>
                            (case sql_select_by_user_id user_id rows of
                               None \<Rightarrow>
                                 (Return, emit (Ev_show_dialog ''Identification Failed'') s1)
                             | Some (u, fingerprint_template, d) \<Rightarrow>
                                 (case b64decode fingerprint_template of
                                    Inl e \<Rightarrow> (Raise e, s1)
                                  | Inr decoded_template \<Rightarrow>
                                      (Return,
                                       emit (Ev_show_dialog ''User Found in Database'')
                                         (add_fingerprint_to_zkfp user_id decoded_template s1)))))))))"

section \<open>Sequences of commits\<close>

text \<open>
  A commit is what \<open>start_register\<close> does with a merged template: it asks
  \<open>get_next_user_id\<close> for an id, gives the template to the device and calls
  \<open>save_fingerprint_to_db\<close>; the commit is successful when the \<open>INSERT\<close> went through.
  \<open>commits s ids s'\<close> holds when a sequence of successful commits leads from \<open>s\<close> to
  \<open>s'\<close> and \<open>ids\<close> are the ids that were issued, in order. The program has no
  operation that deletes a row.
\<close>

inductive commits :: "scanner \<Rightarrow> int list \<Rightarrow> scanner \<Rightarrow> bool" where
  commits_none: "commits s [] s"
| commits_step:
    "commits s ids s1 \<Longrightarrow>
     get_next_user_id s1 = Inr user_id \<Longrightarrow>
     save_fingerprint_to_db dev user_id (b64encode regTemp)
       (add_fingerprint_to_zkfp user_id regTemp s1) = (Return, s2) \<Longrightarrow>
     last (trace s2) = Ev_insert user_id (b64encode regTemp) True \<Longrightarrow>
     commits s (ids @ [user_id]) s2"

section \<open>Example devices and states\<close>

text \<open>
  A device that never matches a sample and merges any three samples into the template
  \<open>Man\<close>, whose encoding is \<open>TWFu\<close>; the same device in front of a store whose
  \<open>INSERT\<close> fails; a device that knows the sample \<open>[2]\<close> as user 1; a device whose
  merge fails.
\<close>

definition quiet_device :: device where
  "quiet_device =
     \<lparr>identify = (\<lambda>index tmp. (0, 0)), merge = (\<lambda>templates. (Some [77, 97, 110], 3)),
      init_raises = False, insert_fault = False, now = ''2024-05-01 10:00:00''\<rparr>"


definition matching_device :: device where
  "matching_device =
     quiet_device\<lparr>identify := (\<lambda>index tmp. if tmp = [2] then (1, 90) else (0, 0))\<rparr>"

definition merge_fail_device :: device where
  "merge_fail_device = quiet_device\<lparr>merge := (\<lambda>templates. (None, 0))\<rparr>"

text \<open>Three fingers presented, with one empty poll in between.\<close>

definition three_fingers :: "poll list" where
  "three_fingers = [Some ([1], [11]), None, Some ([2], [12]), Some ([3], [13]), Some ([4], [14])]"

definition scanner_with :: "row list \<Rightarrow> (int \<times> bytes) list \<Rightarrow> poll list \<Rightarrow> scanner" where
  "scanner_with rows index polls =
     \<lparr>db = Some rows, zk_index = index, is_connected = True, sensor = polls, trace = []\<rparr>"

text \<open>The log of the capture of \<open>three_fingers\<close> on a device that matches nothing.\<close>

definition three_fingers_log :: "event list" where
  "three_fingers_log =
     [Ev_AcquireFingerprint (Some ([1], [11])), Ev_DBIdentify [1] 0 0,
      Ev_AcquireFingerprint None,
      Ev_AcquireFingerprint (Some ([2], [12])), Ev_DBIdentify [2] 0 0,
      Ev_AcquireFingerprint (Some ([3], [13])), Ev_DBIdentify [3] 0 0]"

section \<open>The codec round trip\<close>

lemma table_all:
  "\<forall>n \<in> set [0..<64]. table_a2b_base64 (table_b2a_base64 ! n) = Some (of_nat n)
     \<and> table_b2a_base64 ! n \<noteq> CHR ''='' \<and> (of_char (table_b2a_base64 ! n) :: nat) < 128"
  unfolding table_b2a_base64_def table_a2b_base64_def Let_def
  by (simp add: upt_rec_numeral upt_conv_Cons)

lemma table_at:
  "n < 64 \<Longrightarrow> table_a2b_base64 (table_b2a_base64 ! n) = Some (of_nat n)
     \<and> table_b2a_base64 ! n \<noteq> CHR ''='' \<and> (of_char (table_b2a_base64 ! n) :: nat) < 128"
  using table_all by simp

lemma b2a_sextet:
  assumes "v < 64"
  shows "table_a2b_base64 (b2a v) = Some v" and "b2a v \<noteq> CHR ''=''"
    and "(of_char (b2a v) :: nat) < 128"
proof -
  from assms have "unat v < 64" by (simp add: word_less_nat_alt)
  then have "table_a2b_base64 (table_b2a_base64 ! unat v) = Some (of_nat (unat v))
     \<and> table_b2a_base64 ! unat v \<noteq> CHR ''='' \<and> (of_char (table_b2a_base64 ! unat v) :: nat) < 128"
    by (rule table_at)
  then show "table_a2b_base64 (b2a v) = Some v" and "b2a v \<noteq> CHR ''=''"
    and "(of_char (b2a v) :: nat) < 128"
    by (simp_all add: b2a_def)
qed

lemma bit8_cases: "n < 8 \<Longrightarrow> n \<in> {0, 1, 2, 3, 4, 5, 6, 7 :: nat}"
  by simp arith

lemma word8_eqI:
  fixes a b :: "8 word"
  assumes "bit a 0 = bit b 0" "bit a 1 = bit b 1" "bit a 2 = bit b 2" "bit a 3 = bit b 3"
    "bit a 4 = bit b 4" "bit a 5 = bit b 5" "bit a 6 = bit b 6" "bit a 7 = bit b 7"
  shows "a = b"
proof (rule bit_word_eqI)
  fix n assume "n < LENGTH(8)"
  then have "n \<in> {0, 1, 2, 3, 4, 5, 6, 7 :: nat}" by (intro bit8_cases) simp
  with assms show "bit a n = bit b n" by auto
qed

lemma lt64I: fixes v :: "8 word" assumes "v AND 63 = v" shows "v < 64"
proof -
  have "v AND 63 \<le> 63" by (rule word_and_le1)
  with assms have "v \<le> 63" by simp
  then show ?thesis by (simp add: word_le_nat_alt word_less_nat_alt)
qed

lemma sextet_bounds:
  fixes x y z :: "8 word"
  shows "drop_bit 2 x < 64"
    and "push_bit 4 (x AND 3) OR drop_bit 4 y < 64"
    and "push_bit 4 (x AND 3) < 64"
    and "push_bit 2 (y AND 15) OR drop_bit 6 z < 64"
    and "push_bit 2 (y AND 15) < 64"
    and "z AND 63 < 64"
  by (rule lt64I, rule word8_eqI; auto simp add: bit_simps dest: bit_imp_le_length)+

lemma regroup_first:
  fixes x y :: "8 word"
  shows "push_bit 2 (drop_bit 2 x) OR drop_bit 4 (push_bit 4 (x AND 3) OR drop_bit 4 y) = x"
    and "push_bit 2 (drop_bit 2 x) OR drop_bit 4 (push_bit 4 (x AND 3)) = x"
  by (rule word8_eqI; auto simp add: bit_simps dest: bit_imp_le_length)+

lemma regroup_second:
  fixes x y z :: "8 word"
  shows "push_bit 4 ((push_bit 4 (x AND 3) OR drop_bit 4 y) AND 15)
           OR drop_bit 2 (push_bit 2 (y AND 15) OR drop_bit 6 z) = y"
    and "push_bit 4 ((push_bit 4 (x AND 3) OR drop_bit 4 y) AND 15)
           OR drop_bit 2 (push_bit 2 (y AND 15)) = y"
  by (rule word8_eqI; auto simp add: bit_simps dest: bit_imp_le_length)+

lemma regroup_third:
  fixes y z :: "8 word"
  shows "push_bit 6 ((push_bit 2 (y AND 15) OR drop_bit 6 z) AND 3) OR (z AND 63) = z"
  by (rule word8_eqI; auto simp add: bit_simps dest: bit_imp_le_length)

lemma a2b_loop_sextet:
  assumes "v < 64"
  shows "a2b_loop q l p out (b2a v # cs) =
     (if q = 0 then a2b_loop 1 v 0 out cs
      else if q = 1 then a2b_loop 2 (v AND 15) 0 (out @ [push_bit 2 l OR drop_bit 4 v]) cs
      else if q = 2 then a2b_loop 3 (v AND 3) 0 (out @ [push_bit 4 l OR drop_bit 2 v]) cs
      else a2b_loop 0 0 0 (out @ [push_bit 6 l OR v]) cs)"
  using b2a_sextet(1,2) [OF assms] by simp

lemma a2b_loop_quad:
  assumes "s0 < 64" "s1 < 64" "s2 < 64" "s3 < 64"
  shows "a2b_loop 0 l p out (b2a s0 # b2a s1 # b2a s2 # b2a s3 # cs) =
     a2b_loop 0 0 0
       (out @ [push_bit 2 s0 OR drop_bit 4 s1, push_bit 4 (s1 AND 15) OR drop_bit 2 s2,
               push_bit 6 (s2 AND 3) OR s3]) cs"
  by (simp add: a2b_loop_sextet assms del: a2b_loop.simps)

lemma a2b_loop_pad1:
  assumes "s0 < 64" "s1 < 64" "s2 < 64"
  shows "a2b_loop 0 l p out [b2a s0, b2a s1, b2a s2, CHR ''=''] =
     Inr (out @ [push_bit 2 s0 OR drop_bit 4 s1, push_bit 4 (s1 AND 15) OR drop_bit 2 s2])"
proof -
  have "a2b_loop 0 l p out [b2a s0, b2a s1, b2a s2, CHR ''=''] =
        a2b_loop 3 (s2 AND 3) 0
          (out @ [push_bit 2 s0 OR drop_bit 4 s1, push_bit 4 (s1 AND 15) OR drop_bit 2 s2])
          [CHR ''='']"
    by (simp add: a2b_loop_sextet assms del: a2b_loop.simps)
  then show ?thesis by simp
qed

lemma a2b_loop_pad2:
  assumes "s0 < 64" "s1 < 64"
  shows "a2b_loop 0 l p out [b2a s0, b2a s1, CHR ''='', CHR ''=''] =
     Inr (out @ [push_bit 2 s0 OR drop_bit 4 s1])"
proof -
  have "a2b_loop 0 l p out [b2a s0, b2a s1, CHR ''='', CHR ''=''] =
        a2b_loop 2 (s1 AND 15) 0 (out @ [push_bit 2 s0 OR drop_bit 4 s1]) [CHR ''='', CHR ''='']"
    by (simp add: a2b_loop_sextet assms del: a2b_loop.simps)
  then show ?thesis by simp
qed

lemma a2b_loop_b2a_base64:
  "a2b_loop 0 l p out (b2a_base64 t) = Inr (out @ t)"
proof (induction t arbitrary: l p out rule: b2a_base64.induct)
  case (1 x y z rest)
  have "a2b_loop 0 l p out (b2a_base64 (x # y # z # rest)) =
        a2b_loop 0 0 0 (out @ [x, y, z]) (b2a_base64 rest)"
    unfolding b2a_base64.simps
    by (subst a2b_loop_quad) (simp_all only: sextet_bounds regroup_first regroup_second regroup_third)
  also have "\<dots> = Inr ((out @ [x, y, z]) @ rest)"
    by (rule "1.IH")
  finally show ?case by simp
next
  case (2 x y)
  show ?case
    unfolding b2a_base64.simps
    by (subst a2b_loop_pad1) (simp_all only: sextet_bounds regroup_first regroup_second)
next
  case (3 x)
  show ?case
    unfolding b2a_base64.simps
    by (subst a2b_loop_pad2) (simp_all only: sextet_bounds regroup_first)
next
  case 4
  show ?case by simp
qed

lemma is_ascii_b2a_base64: "is_ascii (b2a_base64 t)"
proof (induction t rule: b2a_base64.induct)
  case (1 x y z rest)
  then show ?case
    unfolding b2a_base64.simps is_ascii.simps
    by (intro conjI b2a_sextet(3) sextet_bounds)
next
  case (2 x y)
  show ?case
    unfolding b2a_base64.simps is_ascii.simps
    by (intro conjI b2a_sextet(3) sextet_bounds) simp_all
next
  case (3 x)
  show ?case
    unfolding b2a_base64.simps is_ascii.simps
    by (intro conjI b2a_sextet(3) sextet_bounds) simp_all
next
  case 4
  show ?case by simp
qed

text \<open>
  Claim C7. For every template \<open>t\<close> (any sequence of bytes), decoding the encoding of
  \<open>t\<close> returns \<open>t\<close>: the decoder that the load applies to a stored template undoes
  the encoder that the registration applied to it, and it does not raise.
\<close>

theorem b64decode_b64encode: "b64decode (b64encode t) = Inr t"
  by (simp add: b64decode_def b64encode_def a2b_base64_def is_ascii_b2a_base64 a2b_loop_b2a_base64)

section \<open>The identity allocator\<close>

lemma sql_max_user_id_None_iff: "sql_max_user_id rows = None \<longleftrightarrow> rows = []"
  by (induction rows rule: sql_max_user_id.induct) (auto split: option.splits)

lemma sql_max_user_id_Max:
  "rows \<noteq> [] \<Longrightarrow> sql_max_user_id rows = Some (Max (fst ` set rows))"
proof (induction rows rule: sql_max_user_id.induct)
  case 1
  then show ?case by simp
next
  case (2 u t d rs)
  show ?case
  proof (cases "rs = []")
    case True
    then show ?thesis by simp
  next
    case False
    with 2 have "sql_max_user_id rs = Some (Max (fst ` set rs))" by simp
    with False show ?thesis by simp
  qed
qed

lemma get_next_user_id_rows:
  assumes "db s = Some rows"
  shows "get_next_user_id s = Inr (if rows = [] then 1 else Max (fst ` set rows) + 1)"
proof (cases "rows = []")
  case True
  with assms show ?thesis by (simp add: get_next_user_id_def)
next
  case False
  then have "sql_max_user_id rows = Some (Max (fst ` set rows))"
    by (rule sql_max_user_id_Max)
  with assms False show ?thesis by (simp add: get_next_user_id_def)
qed

text \<open>
  Claim C6. For every state of the store (the table exists and holds the rows \<open>rows\<close>),
  \<open>get_next_user_id\<close> returns the greatest stored \<open>user_id\<close> plus one when there is
  a row, and 1 when there is none.
\<close>

theorem get_next_user_id_max_plus_one:
  assumes "db s = Some rows"
  shows "get_next_user_id s = Inr (if rows = [] then 1 else Max (fst ` set rows) + 1)"
  using assms by (rule get_next_user_id_rows)

theorem get_next_user_id_max_plus_one_witness:
  "db (scanner_with [(3, ''AQID'', ''2024-05-01 10:00:00''), (7, ''TWFu'', ''2024-05-02 11:30:00'')] [] [])
     = Some [(3, ''AQID'', ''2024-05-01 10:00:00''), (7, ''TWFu'', ''2024-05-02 11:30:00'')]
   \<and> get_next_user_id
        (scanner_with [(3, ''AQID'', ''2024-05-01 10:00:00''), (7, ''TWFu'', ''2024-05-02 11:30:00'')] [] [])
       = Inr 8"
  using get_next_user_id_max_plus_one [of
      "scanner_with [(3, ''AQID'', ''2024-05-01 10:00:00''), (7, ''TWFu'', ''2024-05-02 11:30:00'')] [] []"
      "[(3, ''AQID'', ''2024-05-01 10:00:00''), (7, ''TWFu'', ''2024-05-02 11:30:00'')]"]
  by (simp add: scanner_with_def)

text \<open>
  Claim C10, as stated: for a store whose greatest \<open>user_id\<close> is 0 the allocator returns 1
  rather than the maximum plus one. The two are the same number: on the store that holds the
  single row of id 0 the allocator returns 1, and 1 is the maximum plus one.
\<close>

theorem get_next_user_id_max_zero_counterexample:
  "\<not> (get_next_user_id (scanner_with [(0, ''AQID'', ''2024-05-01 10:00:00'')] [] []) = Inr 1
       \<and> get_next_user_id (scanner_with [(0, ''AQID'', ''2024-05-01 10:00:00'')] [] [])
         \<noteq> Inr (Max (fst ` set [(0 :: int, ''AQID'', ''2024-05-01 10:00:00'')]) + 1))"
  by (simp add: get_next_user_id_def scanner_with_def)

text \<open>
  Claim C10, amended. \<open>get_next_user_id\<close> returns 1 when the store is empty and whenever
  the greatest stored \<open>user_id\<close> is 0; in the second case this 1 is the maximum plus one,
  so the test on the truth value of the maximum never makes the allocator leave
  \<open>max + 1\<close>.
\<close>

theorem get_next_user_id_max_zero:
  assumes "db s = Some rows" and "rows = [] \<or> Max (fst ` set rows) = 0"
  shows "get_next_user_id s = Inr 1
         \<and> (rows \<noteq> [] \<longrightarrow> get_next_user_id s = Inr (Max (fst ` set rows) + 1))"
  using assms by (auto simp add: get_next_user_id_rows)

theorem get_next_user_id_max_zero_witness:
  "db (scanner_with [(- 4, ''AQID'', ''2024-05-01 10:00:00''), (0, ''TWFu'', ''2024-05-02 11:30:00'')] [] [])
     = Some [(- 4, ''AQID'', ''2024-05-01 10:00:00''), (0, ''TWFu'', ''2024-05-02 11:30:00'')]
   \<and> Max (fst ` set [(- 4 :: int, ''AQID'', ''2024-05-01 10:00:00''), (0, ''TWFu'', ''2024-05-02 11:30:00'')]) = 0
   \<and> get_next_user_id
        (scanner_with [(- 4, ''AQID'', ''2024-05-01 10:00:00''), (0, ''TWFu'', ''2024-05-02 11:30:00'')] [] [])
       = Inr 1"
  using get_next_user_id_max_zero [of
      "scanner_with [(- 4, ''AQID'', ''2024-05-01 10:00:00''), (0, ''TWFu'', ''2024-05-02 11:30:00'')] [] []"
      "[(- 4, ''AQID'', ''2024-05-01 10:00:00''), (0, ''TWFu'', ''2024-05-02 11:30:00'')]"]
  by (simp add: scanner_with_def)

section \<open>Monotonic allocation\<close>

lemma b64encode_Man: "b64encode [77, 97, 110] = ''TWFu''"
  by (simp add: b64encode_def b2a_def table_b2a_base64_def)

lemma b64decode_TWFu: "b64decode ''TWFu'' = Inr [77, 97, 110]"
  by (simp add: b64decode_def a2b_base64_def table_a2b_base64_def)

lemma sql_max_user_id_append:
  "sql_max_user_id (rows @ [(u, t, d)]) =
     Some (case sql_max_user_id rows of None \<Rightarrow> u | Some m \<Rightarrow> max m u)"
  by (induction rows rule: sql_max_user_id.induct) (auto split: option.splits)

text \<open>The id that the allocator gives to a table, as a function of its rows.\<close>

lemma get_next_user_id_cases:
  "get_next_user_id s = Inr n \<longleftrightarrow>
     (\<exists>rows. db s = Some rows \<and>
        n = (case sql_max_user_id rows of None \<Rightarrow> 1 | Some m \<Rightarrow> if m \<noteq> 0 then m + 1 else 1))"
  by (auto simp add: get_next_user_id_def split: option.splits)

lemma save_fingerprint_to_db_success:
  assumes "save_fingerprint_to_db dev u enc s = (out, s')"
    and "last (trace s') = Ev_insert u enc True"
  shows "\<exists>rows. db s = Some rows \<and> db s' = Some (rows @ [(u, enc, now dev)])"
  using assms
  by (auto simp add: save_fingerprint_to_db_def sql_insert_def emit_def
      split: option.splits if_splits sum.splits)

lemma commit_next:
  assumes "get_next_user_id s1 = Inr u"
    and "save_fingerprint_to_db dev u enc (add_fingerprint_to_zkfp u t s1) = (out, s2)"
    and "last (trace s2) = Ev_insert u enc True"
  shows "get_next_user_id s2 = Inr (u + 1)"
proof -
  from assms(2,3) obtain rows where
    rows: "db (add_fingerprint_to_zkfp u t s1) = Some rows"
    and rows': "db s2 = Some (rows @ [(u, enc, now dev)])"
    using save_fingerprint_to_db_success by blast
  from rows have db1: "db s1 = Some rows"
    by (simp add: add_fingerprint_to_zkfp_def emit_def)
  with assms(1) have u: "u = (case sql_max_user_id rows of None \<Rightarrow> 1
      | Some m \<Rightarrow> if m \<noteq> 0 then m + 1 else 1)"
    by (simp add: get_next_user_id_cases)
  show ?thesis
    using rows' u
    by (auto simp add: get_next_user_id_def sql_max_user_id_append split: option.splits)
qed

lemma commits_ids:
  assumes "commits s ids s'" and "get_next_user_id s = Inr n"
  shows "ids = map (\<lambda>i. n + int i) [0..<length ids]
         \<and> get_next_user_id s' = Inr (n + int (length ids))"
  using assms
proof (induction rule: commits.induct)
  case (commits_none s)
  then show ?case by simp
next
  case (commits_step s ids s1 user_id dev regTemp s2)
  then have ids: "ids = map (\<lambda>i. n + int i) [0..<length ids]"
    and nxt: "get_next_user_id s1 = Inr (n + int (length ids))" by simp_all
  from nxt commits_step.hyps(2) have uid: "user_id = n + int (length ids)" by simp
  have "get_next_user_id s2 = Inr (user_id + 1)"
    using commits_step.hyps(2,3,4) by (rule commit_next)
  with uid ids show ?case by (simp add: algebra_simps)
qed

text \<open>
  Claim C8. Along any sequence of successful commits the ids that \<open>get_next_user_id\<close>
  issues are strictly increasing, hence never repeated, and the id that it would issue
  next is greater than all of them.
\<close>

theorem commits_strictly_increasing:
  assumes "commits s ids s'" and "get_next_user_id s = Inr n"
  shows "sorted_wrt (<) ids \<and> distinct ids
         \<and> (\<exists>n'. get_next_user_id s' = Inr n' \<and> (\<forall>i \<in> set ids. i < n'))"
proof -
  from assms have ids: "ids = map (\<lambda>i. n + int i) [0..<length ids]"
    and nxt: "get_next_user_id s' = Inr (n + int (length ids))"
    using commits_ids by blast+
  have "sorted_wrt (<) (map (\<lambda>i. n + int i) [0..<length ids])"
    by (simp add: sorted_wrt_map sorted_wrt_upt)
  with ids have sorted: "sorted_wrt (<) ids" by simp
  have "distinct (map (\<lambda>i. n + int i) [0..<length ids])"
    by (simp add: distinct_map inj_on_def)
  with ids have "distinct ids" by simp
  have "\<forall>i \<in> set ids. i < n + int (length ids)"
  proof
    fix i assume "i \<in> set ids"
    with ids have "i \<in> set (map (\<lambda>i. n + int i) [0..<length ids])" by simp
    then show "i < n + int (length ids)" by auto
  qed
  with sorted \<open>distinct ids\<close> nxt show ?thesis by blast
qed

theorem commits_strictly_increasing_witness:
  "commits (scanner_with [] [] []) [1, 2]
     \<lparr>db = Some [(1, ''TWFu'', ''2024-05-01 10:00:00''), (2, ''TWFu'', ''2024-05-01 10:00:00'')],
      zk_index = [(1, [77, 97, 110]), (2, [77, 97, 110])], is_connected = True, sensor = [],
      trace = [Ev_DBAdd 1 [77, 97, 110], Ev_insert 1 ''TWFu'' True,
               Ev_DBAdd 2 [77, 97, 110], Ev_insert 2 ''TWFu'' True]\<rparr>
   \<and> get_next_user_id (scanner_with [] [] []) = Inr 1
   \<and> sorted_wrt (<) [1, 2 :: int] \<and> distinct [1, 2 :: int]
   \<and> (\<exists>n'. get_next_user_id
        \<lparr>db = Some [(1, ''TWFu'', ''2024-05-01 10:00:00''), (2, ''TWFu'', ''2024-05-01 10:00:00'')],
         zk_index = [(1, [77, 97, 110]), (2, [77, 97, 110])], is_connected = True, sensor = [],
         trace = [Ev_DBAdd 1 [77, 97, 110], Ev_insert 1 ''TWFu'' True,
                  Ev_DBAdd 2 [77, 97, 110], Ev_insert 2 ''TWFu'' True]\<rparr> = Inr n'
        \<and> (\<forall>i \<in> set [1, 2]. i < n'))"
proof -
  let ?s1 = "\<lparr>db = Some [(1, ''TWFu'', ''2024-05-01 10:00:00'')],
      zk_index = [(1, [77, 97, 110])], is_connected = True, sensor = [],
      trace = [Ev_DBAdd 1 [77, 97, 110], Ev_insert 1 ''TWFu'' True]\<rparr>"
  let ?s2 = "\<lparr>db = Some [(1, ''TWFu'', ''2024-05-01 10:00:00''), (2, ''TWFu'', ''2024-05-01 10:00:00'')],
      zk_index = [(1, [77, 97, 110]), (2, [77, 97, 110])], is_connected = True, sensor = [],
      trace = [Ev_DBAdd 1 [77, 97, 110], Ev_insert 1 ''TWFu'' True,
               Ev_DBAdd 2 [77, 97, 110], Ev_insert 2 ''TWFu'' True]\<rparr>"
  have n0: "get_next_user_id (scanner_with [] [] []) = Inr 1"
    by (simp add: get_next_user_id_def scanner_with_def)
  have n1: "get_next_user_id ?s1 = Inr 2"
    by (simp add: get_next_user_id_def)
  have save1: "save_fingerprint_to_db quiet_device 1 (b64encode [77, 97, 110])
      (add_fingerprint_to_zkfp 1 [77, 97, 110] (scanner_with [] [] [])) = (Return, ?s1)"
    by (simp add: b64encode_Man save_fingerprint_to_db_def sql_insert_def fits_int64_def
        add_fingerprint_to_zkfp_def emit_def scanner_with_def quiet_device_def)
  have save2: "save_fingerprint_to_db quiet_device 2 (b64encode [77, 97, 110])
      (add_fingerprint_to_zkfp 2 [77, 97, 110] ?s1) = (Return, ?s2)"
    by (simp add: b64encode_Man save_fingerprint_to_db_def sql_insert_def fits_int64_def
        add_fingerprint_to_zkfp_def emit_def quiet_device_def)
  have l1: "last (trace ?s1) = Ev_insert 1 (b64encode [77, 97, 110]) True"
    by (simp add: b64encode_Man)
  have l2: "last (trace ?s2) = Ev_insert 2 (b64encode [77, 97, 110]) True"
    by (simp add: b64encode_Man)
  have "commits (scanner_with [] [] []) ([] @ [1]) ?s1"
    by (rule commits_step [OF commits_none n0 save1 l1])
  then have c1: "commits (scanner_with [] [] []) [1] ?s1" by simp
  have "commits (scanner_with [] [] []) ([1] @ [2]) ?s2"
    by (rule commits_step [OF c1 n1 save2 l2])
  then have run: "commits (scanner_with [] [] []) [1, 2] ?s2" by simp
  from commits_strictly_increasing [OF run n0] run n0 show ?thesis by simp
qed

section \<open>The bulk load\<close>






section \<open>Connecting the device\<close>

lemma load_rows_index:
  assumes "load_rows rows s = (out, s')"
  shows "\<exists>added. zk_index s' = zk_index s @ added
           \<and> trace s' = trace s @ map (\<lambda>(u, t). Ev_DBAdd u t) added
           \<and> db s' = db s
           \<and> (\<forall>(u, t) \<in> set added. \<exists>enc d. (u, enc, d) \<in> set rows \<and> b64decode enc = Inr t)"
  using assms
proof (induction rows s rule: load_rows.induct)
  case (1 s)
  then show ?case by simp
next
  case (2 user_id enc d rows s)
  show ?case
  proof (cases "b64decode enc")
    case (Inl e)
    with "2.prems" show ?thesis by simp
  next
    case (Inr t)
    with "2.prems" have "load_rows rows (add_fingerprint_to_zkfp user_id t s) = (out, s')"
      by simp
    from "2.IH" [OF Inr this] obtain added where
      a: "zk_index s' = zk_index (add_fingerprint_to_zkfp user_id t s) @ added"
      and b: "trace s' = trace (add_fingerprint_to_zkfp user_id t s) @ map (\<lambda>(u, t). Ev_DBAdd u t) added"
      and c: "db s' = db (add_fingerprint_to_zkfp user_id t s)"
      and d: "\<forall>(u, t) \<in> set added. \<exists>enc d. (u, enc, d) \<in> set rows \<and> b64decode enc = Inr t"
      by blast
    have "zk_index s' = zk_index s @ ((user_id, t) # added)"
      using a by (simp add: add_fingerprint_to_zkfp_def emit_def)
    moreover have "trace s' = trace s @ map (\<lambda>(u, t). Ev_DBAdd u t) ((user_id, t) # added)"
      using b by (simp add: add_fingerprint_to_zkfp_def emit_def)
    moreover have "db s' = db s"
      using c by (simp add: add_fingerprint_to_zkfp_def emit_def)
    moreover have "\<forall>(u, t) \<in> set ((user_id, t) # added).
        \<exists>enc' d'. (u, enc', d') \<in> set ((user_id, enc, d) # rows) \<and> b64decode enc' = Inr t"
      using d Inr by fastforce
    ultimately show ?thesis by blast
  qed
qed

text \<open>
  Claim C9. When the device opens without an exception, \<open>connect_to_device\<close> calls
  \<open>DBClear\<close> before any \<open>DBAdd\<close> of the load, the entries of the device after the call
  are exactly the ones that the load added, and each of them is the decoded template of a
  row of the store: nothing that the device held before the connection survives.
\<close>

theorem connect_clears_before_load:
  assumes "\<not> init_raises dev" and "connect_to_device dev s = (out, s')"
  shows "\<exists>rows. db s' = Some rows
           \<and> trace s' = trace s @ [Ev_DBClear, Ev_show_dialog ''Connection Success'']
                          @ map (\<lambda>(u, t). Ev_DBAdd u t) (zk_index s')
           \<and> (\<forall>(u, t) \<in> set (zk_index s').
                 \<exists>enc d. (u, enc, d) \<in> set rows \<and> b64decode enc = Inr t)"
proof -
  define s3 where "s3 = setup_database (emit (Ev_show_dialog ''Connection Success'')
      ((emit Ev_DBClear (s\<lparr>zk_index := []\<rparr>))\<lparr>is_connected := True\<rparr>))"
  obtain rows where rows: "db s3 = Some rows"
    by (simp add: s3_def setup_database_def)
  have idx: "zk_index s3 = []" and tr: "trace s3 = trace s @ [Ev_DBClear, Ev_show_dialog ''Connection Success'']"
    by (simp_all add: s3_def setup_database_def emit_def)
  from assms have "load_rows rows s3 = (out, s')"
    using rows
    by (simp add: connect_to_device_def initialize_zkfp2_def load_fingerprints_from_db_def
        s3_def [symmetric])
  from load_rows_index [OF this] idx tr rows show ?thesis by auto
qed

theorem connect_clears_before_load_witness:
  "\<not> init_raises quiet_device
   \<and> connect_to_device quiet_device
       (scanner_with [(1, ''TWFu'', ''2024-05-01 10:00:00'')] [(99, [9])] [])
     = (Return,
        \<lparr>db = Some [(1, ''TWFu'', ''2024-05-01 10:00:00'')], zk_index = [(1, [77, 97, 110])],
         is_connected = True, sensor = [],
         trace = [Ev_DBClear, Ev_show_dialog ''Connection Success'', Ev_DBAdd 1 [77, 97, 110]]\<rparr>)
   \<and> list_all
         (\<lambda>(u, t). \<exists>enc d. (u, enc, d) \<in> set [(1 :: int, ''TWFu'', ''2024-05-01 10:00:00'')]
            \<and> b64decode enc = Inr t)
         [(1, [77, 97, 110])]"
proof -
  have h1: "\<not> init_raises quiet_device" by (simp add: quiet_device_def)
  have h2: "connect_to_device quiet_device
       (scanner_with [(1, ''TWFu'', ''2024-05-01 10:00:00'')] [(99, [9])] [])
     = (Return,
        \<lparr>db = Some [(1, ''TWFu'', ''2024-05-01 10:00:00'')], zk_index = [(1, [77, 97, 110])],
         is_connected = True, sensor = [],
         trace = [Ev_DBClear, Ev_show_dialog ''Connection Success'', Ev_DBAdd 1 [77, 97, 110]]\<rparr>)"
    by (simp add: connect_to_device_def initialize_zkfp2_def load_fingerprints_from_db_def
        setup_database_def scanner_with_def quiet_device_def b64decode_TWFu
        add_fingerprint_to_zkfp_def emit_def)
  from connect_clears_before_load [OF h1 h2] h1 h2 show ?thesis by simp
qed

section \<open>Identification after a miss\<close>

lemma sql_max_user_id_upper:
  "sql_max_user_id rows = Some m \<Longrightarrow> r \<in> set rows \<Longrightarrow> fst r \<le> m"
proof (induction rows arbitrary: m rule: sql_max_user_id.induct)
  case 1
  then show ?case by simp
next
  case (2 u t d rs)
  then show ?case
    by (cases "sql_max_user_id rs") (auto simp add: sql_max_user_id_None_iff)
qed

lemma sql_select_by_user_id_None:
  "(\<And>r. r \<in> set rows \<Longrightarrow> fst r \<noteq> uid) \<Longrightarrow> sql_select_by_user_id uid rows = None"
  by (induction rows) auto

lemma next_user_id_not_stored:
  assumes "db s = Some rows" and "get_next_user_id s = Inr uid"
  shows "sql_select_by_user_id uid rows = None"
proof (rule sql_select_by_user_id_None)
  fix r assume r: "r \<in> set rows"
  then have "rows \<noteq> []" by auto
  then obtain m where m: "sql_max_user_id rows = Some m"
    by (cases "sql_max_user_id rows") (simp_all add: sql_max_user_id_None_iff)
  with assms have "uid = (if m \<noteq> 0 then m + 1 else 1)"
    by (simp add: get_next_user_id_def)
  moreover from m r have "fst r \<le> m" by (rule sql_max_user_id_upper)
  ultimately show "fst r \<noteq> uid" by (auto split: if_splits)
qed

text \<open>
  The id that \<open>start_identification\<close> looks up after a miss is the one that
  \<open>get_next_user_id\<close> returns, and no row has it: the branch that adds a stored template
  to the device is never taken.
\<close>

lemma start_identification_never_heals:
  "zk_index (snd (start_identification dev s)) = zk_index s
   \<and> Ev_show_dialog ''User Found in Database''
       \<notin> set (drop (length (trace s)) (trace (snd (start_identification dev s))))"
proof -
  obtain c tr rest where aw: "await_fingerprint (sensor s) = (c, tr, rest)"
    by (cases "await_fingerprint (sensor s)")
  have tr: "Ev_show_dialog ''User Found in Database'' \<notin> set tr'"
    if "await_fingerprint polls = (c', tr', rest')" for polls c' tr' rest'
    using that
    by (induction polls arbitrary: c' tr' rest' rule: await_fingerprint.induct)
       (auto split: prod.splits)
  show ?thesis
  proof (cases c)
    case None
    with aw tr show ?thesis by (simp add: start_identification_def)
  next
    case (Some cap)
    obtain tmp img where cap: "cap = (tmp, img)" by (cases cap)
    obtain fid score where id: "identify dev (zk_index s) tmp = (fid, score)"
      by (cases "identify dev (zk_index s) tmp")
    define s1 where "s1 = emit (Ev_DBIdentify tmp fid score) (s\<lparr>sensor := rest, trace := trace s @ tr\<rparr>)"
    have s1: "zk_index s1 = zk_index s" "trace s1 = trace s @ tr @ [Ev_DBIdentify tmp fid score]"
      "db s1 = db s"
      by (simp_all add: s1_def emit_def)
    have eq: "start_identification dev s =
        (if fid \<noteq> 0 then (Return, emit (Ev_show_dialog ''User Identified'') s1)
         else
           (case get_next_user_id s1 of
              Inl e \<Rightarrow> (Raise e, s1)
            | Inr user_id \<Rightarrow>
                (case db s1 of
                   None \<Rightarrow> (Raise OperationalError, s1)
                 | Some rows \<Rightarrow>
                     (case sql_select_by_user_id user_id rows of
                        None \<Rightarrow> (Return, emit (Ev_show_dialog ''Identification Failed'') s1)
                      | Some (u, fingerprint_template, d) \<Rightarrow>
                          (case b64decode fingerprint_template of
                             Inl e \<Rightarrow> (Raise e, s1)
                           | Inr decoded_template \<Rightarrow>
                               (Return,
                                emit (Ev_show_dialog ''User Found in Database'')
                                  (add_fingerprint_to_zkfp user_id decoded_template s1)))))))"
      unfolding s1_def by (simp add: start_identification_def aw Some cap id Let_def)
    show ?thesis
    proof (cases "fid \<noteq> 0")
      case True
      with eq s1 tr [OF aw] show ?thesis by (simp add: emit_def)
    next
      case False
      show ?thesis
      proof (cases "get_next_user_id s1")
        case (Inl e)
        with eq False s1 tr [OF aw] show ?thesis by simp
      next
        case (Inr uid)
        then obtain rows where rows: "db s1 = Some rows"
          by (auto simp add: get_next_user_id_def split: option.splits)
        from rows Inr have "sql_select_by_user_id uid rows = None"
          by (rule next_user_id_not_stored)
        with eq False s1(1,2) tr [OF aw] Inr rows show ?thesis by (simp add: emit_def)
      qed
    qed
  qed
qed

text \<open>
  Claim C2, on the scenario of the claim: the store holds the single record of id 2, the
  device holds nothing and does not match the sample. The workflow looks up id 3, finds
  no row, leaves the device empty and reports that the fingerprint was not recognised.
\<close>

theorem identification_gap_not_healed:
  "get_next_user_id (scanner_with [(2, ''TWFu'', ''2024-05-01 10:00:00'')] [] [Some ([9], [19])])
     = Inr 3
   \<and> start_identification quiet_device
       (scanner_with [(2, ''TWFu'', ''2024-05-01 10:00:00'')] [] [Some ([9], [19])])
     = (Return,
        \<lparr>db = Some [(2, ''TWFu'', ''2024-05-01 10:00:00'')], zk_index = [],
         is_connected = True, sensor = [],
         trace = [Ev_AcquireFingerprint (Some ([9], [19])), Ev_DBIdentify [9] 0 0,
                  Ev_show_dialog ''Identification Failed'']\<rparr>)"
  by (simp add: start_identification_def get_next_user_id_def scanner_with_def quiet_device_def
      emit_def)

section \<open>The capture loop\<close>

declare capture_samples.simps [simp del]

lemma capture_samples_done:
  "3 \<le> i \<Longrightarrow> capture_samples ident i ts polls = (Captured ts, [], polls)"
  by (subst capture_samples.simps) simp

lemma capture_samples_Nil:
  "i < 3 \<Longrightarrow> capture_samples ident i ts [] = (Starved, [], [])"
  by (subst capture_samples.simps) simp

lemma capture_samples_None:
  "i < 3 \<Longrightarrow> capture_samples ident i ts (None # ps) =
     (case capture_samples ident i ts ps of
        (c, tr, rest) \<Rightarrow> (c, Ev_AcquireFingerprint None # tr, rest))"
  by (subst capture_samples.simps) simp

lemma capture_samples_match_now:
  "i < 3 \<Longrightarrow> ident tmp = (fid, score) \<Longrightarrow> fid \<noteq> 0 \<Longrightarrow>
   capture_samples ident i ts (Some (tmp, img) # ps) =
     (Duplicate fid,
      [Ev_AcquireFingerprint (Some (tmp, img)), Ev_DBIdentify tmp fid score,
       Ev_show_dialog ''Fingerprint Exists''],
      ps)"
  by (subst capture_samples.simps) simp

lemma capture_samples_keep:
  "i < 3 \<Longrightarrow> ident tmp = (0, score) \<Longrightarrow>
   capture_samples ident i ts (Some (tmp, img) # ps) =
     (case capture_samples ident (i + 1) (ts @ [tmp]) ps of
        (c, tr, rest) \<Rightarrow>
          (c, Ev_AcquireFingerprint (Some (tmp, img)) # Ev_DBIdentify tmp 0 score # tr, rest))"
  by (subst capture_samples.simps) simp

text \<open>The four ways in which one step of the capture loop can go.\<close>

lemma capture_samples_cases:
  assumes "capture_samples ident i ts polls = (c, tr, rest)"
  obtains
    (full) "3 \<le> i" "c = Captured ts" "tr = []" "rest = polls"
  | (starved) "i < 3" "polls = []" "c = Starved" "tr = []" "rest = []"
  | (miss) ps tr' where "i < 3" "polls = None # ps"
      "capture_samples ident i ts ps = (c, tr', rest)" "tr = Ev_AcquireFingerprint None # tr'"
  | (dup) tmp img ps fid score where "i < 3" "polls = Some (tmp, img) # ps"
      "ident tmp = (fid, score)" "fid \<noteq> 0" "c = Duplicate fid"
      "tr = [Ev_AcquireFingerprint (Some (tmp, img)), Ev_DBIdentify tmp fid score,
             Ev_show_dialog ''Fingerprint Exists'']" "rest = ps"
  | (keep) tmp img ps score tr' where "i < 3" "polls = Some (tmp, img) # ps"
      "ident tmp = (0, score)"
      "capture_samples ident (i + 1) (ts @ [tmp]) ps = (c, tr', rest)"
      "tr = Ev_AcquireFingerprint (Some (tmp, img)) # Ev_DBIdentify tmp 0 score # tr'"
proof (cases "3 \<le> i")
  case True
  with assms full show ?thesis by (simp add: capture_samples_done)
next
  case False
  then have i: "i < 3" by simp
  show ?thesis
  proof (cases polls)
    case Nil
    with assms i starved show ?thesis by (simp add: capture_samples_Nil)
  next
    case (Cons p ps)
    show ?thesis
    proof (cases p)
      case None
      obtain c' tr' rest' where "capture_samples ident i ts ps = (c', tr', rest')"
        by (cases "capture_samples ident i ts ps")
      with assms i Cons None miss show ?thesis by (simp add: capture_samples_None)
    next
      case (Some cap)
      obtain tmp img where cap: "cap = (tmp, img)" by (cases cap)
      obtain fid score where id: "ident tmp = (fid, score)" by (cases "ident tmp")
      show ?thesis
      proof (cases "fid = 0")
        case True
        obtain c' tr' rest' where
          "capture_samples ident (i + 1) (ts @ [tmp]) ps = (c', tr', rest')"
          by (cases "capture_samples ident (i + 1) (ts @ [tmp]) ps")
        with assms i Cons Some cap id True keep show ?thesis
          by (simp add: capture_samples_keep)
      next
        case False
        with assms i Cons Some cap id dup show ?thesis
          by (simp add: capture_samples_match_now)
      qed
    qed
  qed
qed

lemma capture_samples_quiet:
  "capture_samples ident i ts polls = (c, tr, rest) \<Longrightarrow> e \<in> set tr \<Longrightarrow>
   \<not> is_DBAdd e \<and> \<not> is_insert e \<and> \<not> is_DBMerge e"
proof (induction polls arbitrary: i ts c tr rest)
  case Nil
  from Nil.prems(1) show ?case
    by (cases rule: capture_samples_cases) (use Nil.prems(2) in auto)
next
  case (Cons p ps)
  from Cons.prems(1) show ?case
  proof (cases rule: capture_samples_cases)
    case (miss ps' tr')
    with Cons.IH [of i ts c tr' rest] Cons.prems(2) show ?thesis by auto
  next
    case (keep tmp img ps' score tr')
    with Cons.IH [of "i + 1" "ts @ [tmp]" c tr' rest] Cons.prems(2) show ?thesis by auto
  qed (use Cons.prems(2) in auto)
qed

lemma capture_samples_polled:
  "capture_samples ident i ts polls = (c, tr, rest) \<Longrightarrow> polls = polled tr @ rest"
proof (induction polls arbitrary: i ts c tr rest)
  case Nil
  from Nil.prems(1) show ?case
    by (cases rule: capture_samples_cases) auto
next
  case (Cons p ps)
  from Cons.prems(1) show ?case
  proof (cases rule: capture_samples_cases)
    case (miss ps' tr')
    with Cons.IH [of i ts c tr' rest] show ?thesis by auto
  next
    case (keep tmp img ps' score tr')
    with Cons.IH [of "i + 1" "ts @ [tmp]" c tr' rest] show ?thesis by auto
  qed auto
qed

lemma capture_samples_no_match:
  "capture_samples ident i ts polls = (c, tr, rest) \<Longrightarrow> \<forall>fid. c \<noteq> Duplicate fid \<Longrightarrow>
   Ev_DBIdentify t f sc \<in> set tr \<Longrightarrow> f = 0"
proof (induction polls arbitrary: i ts c tr rest)
  case Nil
  from Nil.prems(1) show ?case
    by (cases rule: capture_samples_cases) (use Nil.prems in auto)
next
  case (Cons p ps)
  from Cons.prems(1) show ?case
  proof (cases rule: capture_samples_cases)
    case (miss ps' tr')
    with Cons.IH [of i ts c tr' rest] Cons.prems(2,3) show ?thesis by auto
  next
    case (keep tmp img ps' score tr')
    with Cons.IH [of "i + 1" "ts @ [tmp]" c tr' rest] Cons.prems(2,3) show ?thesis by auto
  qed (use Cons.prems in auto)
qed

lemma capture_samples_match:
  "capture_samples ident i ts polls = (Duplicate fid, tr, rest) \<Longrightarrow>
   \<exists>pre tmp img score.
     tr = pre @ [Ev_AcquireFingerprint (Some (tmp, img)), Ev_DBIdentify tmp fid score,
                 Ev_show_dialog ''Fingerprint Exists'']
     \<and> fid \<noteq> 0 \<and> ident tmp = (fid, score)
     \<and> (\<forall>t f sc. Ev_DBIdentify t f sc \<in> set pre \<longrightarrow> f = 0)"
proof (induction polls arbitrary: i ts tr rest)
  case Nil
  from Nil.prems show ?case
    by (cases rule: capture_samples_cases) auto
next
  case (Cons p ps)
  from Cons.prems show ?case
  proof (cases rule: capture_samples_cases)
    case (miss ps' tr')
    from miss(2,3) Cons.IH [of i ts tr' rest] obtain pre tmp img score where
      "tr' = pre @ [Ev_AcquireFingerprint (Some (tmp, img)), Ev_DBIdentify tmp fid score,
                 Ev_show_dialog ''Fingerprint Exists'']"
      "fid \<noteq> 0" "ident tmp = (fid, score)"
      "\<forall>t f sc. Ev_DBIdentify t f sc \<in> set pre \<longrightarrow> f = 0"
      by auto
    with miss(4) have "tr = (Ev_AcquireFingerprint None # pre)
          @ [Ev_AcquireFingerprint (Some (tmp, img)), Ev_DBIdentify tmp fid score,
             Ev_show_dialog ''Fingerprint Exists'']
        \<and> fid \<noteq> 0 \<and> ident tmp = (fid, score)
        \<and> (\<forall>t f sc. Ev_DBIdentify t f sc \<in> set (Ev_AcquireFingerprint None # pre) \<longrightarrow> f = 0)"
      by simp
    then show ?thesis by blast
  next
    case (dup tmp img ps' fid' score)
    then have "tr = [] @ [Ev_AcquireFingerprint (Some (tmp, img)), Ev_DBIdentify tmp fid score,
             Ev_show_dialog ''Fingerprint Exists'']
        \<and> fid \<noteq> 0 \<and> ident tmp = (fid, score)
        \<and> (\<forall>t f sc. Ev_DBIdentify t f sc \<in> set [] \<longrightarrow> f = 0)"
      by simp
    then show ?thesis by blast
  next
    case (keep tmp0 img0 ps' score0 tr')
    from keep(2,4) Cons.IH [of "i + 1" "ts @ [tmp0]" tr' rest] obtain pre tmp img score where
      "tr' = pre @ [Ev_AcquireFingerprint (Some (tmp, img)), Ev_DBIdentify tmp fid score,
                 Ev_show_dialog ''Fingerprint Exists'']"
      "fid \<noteq> 0" "ident tmp = (fid, score)"
      "\<forall>t f sc. Ev_DBIdentify t f sc \<in> set pre \<longrightarrow> f = 0"
      by auto
    with keep(5) have "tr = (Ev_AcquireFingerprint (Some (tmp0, img0)) # Ev_DBIdentify tmp0 0 score0 # pre)
          @ [Ev_AcquireFingerprint (Some (tmp, img)), Ev_DBIdentify tmp fid score,
             Ev_show_dialog ''Fingerprint Exists'']
        \<and> fid \<noteq> 0 \<and> ident tmp = (fid, score)
        \<and> (\<forall>t f sc. Ev_DBIdentify t f sc
              \<in> set (Ev_AcquireFingerprint (Some (tmp0, img0)) # Ev_DBIdentify tmp0 0 score0 # pre)
            \<longrightarrow> f = 0)"
      by simp
    then show ?thesis by blast
  qed auto
qed

section \<open>Registration: what is persisted and in which order\<close>

lemma get_next_user_id_total:
  "db s = Some rows \<Longrightarrow> \<exists>uid. get_next_user_id s = Inr uid"
  by (simp add: get_next_user_id_def split: option.splits)

lemma start_register_not_captured:
  assumes "capture_samples (identify dev (zk_index s)) 0 [] (sensor s) = (c, tr, rest)"
    and "\<forall>ts. c \<noteq> Captured ts"
  shows "start_register dev s =
     (if c = Starved then Blocked else Return, s\<lparr>sensor := rest, trace := trace s @ tr\<rparr>)"
  using assms by (cases c) (simp_all add: start_register_def)

lemma start_register_merge_failed:
  assumes "capture_samples (identify dev (zk_index s)) 0 [] (sensor s) = (Captured ts, tr, rest)"
    and "merge dev ts = (r, n)" and "\<not> truthy r"
  shows "start_register dev s =
     (Return,
      s\<lparr>sensor := rest,
        trace := trace s @ tr @ [Ev_DBMerge ts r, Ev_show_dialog ''Error'']\<rparr>)"
  using assms
  by (cases r) (simp_all add: start_register_def emit_def)

lemma start_register_no_table:
  assumes "capture_samples (identify dev (zk_index s)) 0 [] (sensor s) = (Captured ts, tr, rest)"
    and "merge dev ts = (Some m, n)" and "m \<noteq> []" and "db s = None"
  shows "start_register dev s =
     (Raise OperationalError, s\<lparr>sensor := rest, trace := trace s @ tr @ [Ev_DBMerge ts (Some m)]\<rparr>)"
  using assms
  by (simp add: start_register_def emit_def get_next_user_id_def)

lemma start_register_merged:
  assumes "capture_samples (identify dev (zk_index s)) 0 [] (sensor s) = (Captured ts, tr, rest)"
    and "merge dev ts = (Some m, n)" and "m \<noteq> []" and "db s = Some rows"
    and "get_next_user_id s = Inr uid"
  shows "start_register dev s =
     (case sql_insert (insert_fault dev) (uid, b64encode m, now dev) (Some rows) of
        Inr rows' \<Rightarrow>
          (Return,
           s\<lparr>db := Some rows', zk_index := zk_index s @ [(uid, m)], sensor := rest,
             trace := trace s @ tr @ [Ev_DBMerge ts (Some m), Ev_DBAdd uid m,
                                      Ev_insert uid (b64encode m) True]
                      @ [Ev_show_dialog ''Registration Success'']\<rparr>)
      | Inl e \<Rightarrow>
          (if is_DatabaseError e then Return else Raise e,
           s\<lparr>zk_index := zk_index s @ [(uid, m)], sensor := rest,
             trace := trace s @ tr @ [Ev_DBMerge ts (Some m), Ev_DBAdd uid m,
                                      Ev_insert uid (b64encode m) False]
                      @ (if is_DatabaseError e then [Ev_show_dialog ''Registration Success'']
                         else [])\<rparr>))"
proof -
  have nxt: "get_next_user_id (emit (Ev_DBMerge ts (Some m))
      (s\<lparr>sensor := rest, trace := trace s @ tr\<rparr>)) = Inr uid"
    using assms(5) by (simp add: get_next_user_id_def emit_def)
  show ?thesis
    using assms(1-4) nxt
    by (simp add: start_register_def save_fingerprint_to_db_def add_fingerprint_to_zkfp_def
        emit_def split: sum.splits)
qed

lemma capture_three_fingers:
  "capture_samples (\<lambda>tmp. (0, 0)) 0 [] three_fingers
     = (Captured [[1], [2], [3]], three_fingers_log, [Some ([4], [14])])"
  by (simp add: three_fingers_def three_fingers_log_def capture_samples.simps)

lemma capture_known_finger:
  "capture_samples (\<lambda>tmp. if tmp = [2] then (1, 90) else (0, 0)) 0 [] three_fingers
     = (Duplicate 1,
        [Ev_AcquireFingerprint (Some ([1], [11])), Ev_DBIdentify [1] 0 0,
         Ev_AcquireFingerprint None,
         Ev_AcquireFingerprint (Some ([2], [12])), Ev_DBIdentify [2] 1 90,
         Ev_show_dialog ''Fingerprint Exists''],
        [Some ([3], [13]), Some ([4], [14])])"
  by (simp add: three_fingers_def capture_samples.simps)

text \<open>
  Claim C5. In every run of \<open>start_register\<close> in which \<open>DBMerge\<close> is called and gives
  nothing (or an empty template), the handler returns normally after the error dialog,
  the store and the device index are as before, and the run makes neither a \<open>DBAdd\<close>
  nor an \<open>INSERT\<close>.
\<close>

theorem merge_failure_persists_nothing:
  assumes run: "start_register dev s = (out, s')"
    and ev: "Ev_DBMerge templates regTemp \<in> set (drop (length (trace s)) (trace s'))"
    and falsy: "\<not> truthy regTemp"
  shows "out = Return \<and> db s' = db s \<and> zk_index s' = zk_index s
         \<and> (\<forall>e \<in> set (drop (length (trace s)) (trace s')). \<not> is_DBAdd e \<and> \<not> is_insert e)
         \<and> last (trace s') = Ev_show_dialog ''Error''"
proof -
  obtain c tr rest where
    cap: "capture_samples (identify dev (zk_index s)) 0 [] (sensor s) = (c, tr, rest)"
    by (cases "capture_samples (identify dev (zk_index s)) 0 [] (sensor s)")
  have quiet: "\<not> is_DBAdd e \<and> \<not> is_insert e \<and> \<not> is_DBMerge e" if "e \<in> set tr" for e
    using cap that by (rule capture_samples_quiet)
  show ?thesis
  proof (cases "\<exists>ts. c = Captured ts")
    case False
    then have "\<forall>ts. c \<noteq> Captured ts" by simp
    from start_register_not_captured [OF cap this] run
    have "drop (length (trace s)) (trace s') = tr" by auto
    with ev quiet [of "Ev_DBMerge templates regTemp"] show ?thesis by simp
  next
    case True
    then obtain ts where c: "c = Captured ts" by blast
    obtain r n where mg: "merge dev ts = (r, n)" by (cases "merge dev ts")
    show ?thesis
    proof (cases "truthy r")
      case False
      from start_register_merge_failed [OF cap [unfolded c] mg False] run
      have out: "out = Return"
        and s': "s' = s\<lparr>sensor := rest,
            trace := trace s @ tr @ [Ev_DBMerge ts r, Ev_show_dialog ''Error'']\<rparr>"
        by simp_all
      from s' quiet show ?thesis by (auto simp add: out)
    next
      case True
      then obtain m where r: "r = Some m" and m: "m \<noteq> []" by (cases r) auto
      have "\<exists>post. drop (length (trace s)) (trace s') = tr @ Ev_DBMerge ts (Some m) # post
              \<and> (\<forall>e \<in> set post. \<not> is_DBMerge e)"
      proof (cases "db s")
        case None
        from start_register_no_table [OF cap [unfolded c] mg [unfolded r] m None] run
        show ?thesis by auto
      next
        case (Some rows)
        then obtain uid where uid: "get_next_user_id s = Inr uid"
          using get_next_user_id_total by blast
        from start_register_merged [OF cap [unfolded c] mg [unfolded r] m Some uid] run
        show ?thesis by (auto split: sum.splits if_splits)
      qed
      then obtain post where
        new: "drop (length (trace s)) (trace s') = tr @ Ev_DBMerge ts (Some m) # post"
        and post: "\<forall>e \<in> set post. \<not> is_DBMerge e" by blast
      from ev new quiet [of "Ev_DBMerge templates regTemp"] post
      have "regTemp = Some m" by auto
      with falsy m show ?thesis by simp
    qed
  qed
qed

theorem merge_failure_persists_nothing_witness:
  "start_register merge_fail_device (scanner_with [] [] three_fingers) = (Return, \<lparr>db = Some [], zk_index = [], is_connected = True, sensor = [Some ([4], [14])],
       trace = three_fingers_log @ [Ev_DBMerge [[1], [2], [3]] None, Ev_show_dialog ''Error'']\<rparr>)
   \<and> Ev_DBMerge [[1], [2], [3]] None \<in> set (drop (length (trace (scanner_with [] [] three_fingers))) (trace \<lparr>db = Some [], zk_index = [], is_connected = True, sensor = [Some ([4], [14])],
       trace = three_fingers_log @ [Ev_DBMerge [[1], [2], [3]] None, Ev_show_dialog ''Error'']\<rparr>))
   \<and> \<not> truthy None
   \<and> (Return = Return \<and> db \<lparr>db = Some [], zk_index = [], is_connected = True, sensor = [Some ([4], [14])],
       trace = three_fingers_log @ [Ev_DBMerge [[1], [2], [3]] None, Ev_show_dialog ''Error'']\<rparr> = db (scanner_with [] [] three_fingers) \<and> zk_index \<lparr>db = Some [], zk_index = [], is_connected = True, sensor = [Some ([4], [14])],
       trace = three_fingers_log @ [Ev_DBMerge [[1], [2], [3]] None, Ev_show_dialog ''Error'']\<rparr> = zk_index (scanner_with [] [] three_fingers)
         \<and> list_all (\<lambda>e. \<not> is_DBAdd e \<and> \<not> is_insert e) (drop (length (trace (scanner_with [] [] three_fingers))) (trace \<lparr>db = Some [], zk_index = [], is_connected = True, sensor = [Some ([4], [14])],
       trace = three_fingers_log @ [Ev_DBMerge [[1], [2], [3]] None, Ev_show_dialog ''Error'']\<rparr>))
         \<and> last (trace \<lparr>db = Some [], zk_index = [], is_connected = True, sensor = [Some ([4], [14])],
       trace = three_fingers_log @ [Ev_DBMerge [[1], [2], [3]] None, Ev_show_dialog ''Error'']\<rparr>) = Ev_show_dialog ''Error'')"
proof -
  have h1: "start_register merge_fail_device (scanner_with [] [] three_fingers) = (Return, \<lparr>db = Some [], zk_index = [], is_connected = True, sensor = [Some ([4], [14])],
       trace = three_fingers_log @ [Ev_DBMerge [[1], [2], [3]] None, Ev_show_dialog ''Error'']\<rparr>)"
    by (simp add: start_register_def merge_fail_device_def quiet_device_def scanner_with_def
        capture_three_fingers emit_def)
  have h2: "Ev_DBMerge [[1], [2], [3]] None \<in> set (drop (length (trace (scanner_with [] [] three_fingers))) (trace \<lparr>db = Some [], zk_index = [], is_connected = True, sensor = [Some ([4], [14])],
       trace = three_fingers_log @ [Ev_DBMerge [[1], [2], [3]] None, Ev_show_dialog ''Error'']\<rparr>))"
    by (simp add: scanner_with_def)
  have h3: "\<not> truthy None" by simp
  have c: "(Return = Return \<and> db \<lparr>db = Some [], zk_index = [], is_connected = True, sensor = [Some ([4], [14])],
       trace = three_fingers_log @ [Ev_DBMerge [[1], [2], [3]] None, Ev_show_dialog ''Error'']\<rparr> = db (scanner_with [] [] three_fingers) \<and> zk_index \<lparr>db = Some [], zk_index = [], is_connected = True, sensor = [Some ([4], [14])],
       trace = three_fingers_log @ [Ev_DBMerge [[1], [2], [3]] None, Ev_show_dialog ''Error'']\<rparr> = zk_index (scanner_with [] [] three_fingers)
         \<and> (\<forall>e \<in> set (drop (length (trace (scanner_with [] [] three_fingers))) (trace \<lparr>db = Some [], zk_index = [], is_connected = True, sensor = [Some ([4], [14])],
       trace = three_fingers_log @ [Ev_DBMerge [[1], [2], [3]] None, Ev_show_dialog ''Error'']\<rparr>)). \<not> is_DBAdd e \<and> \<not> is_insert e)
         \<and> last (trace \<lparr>db = Some [], zk_index = [], is_connected = True, sensor = [Some ([4], [14])],
       trace = three_fingers_log @ [Ev_DBMerge [[1], [2], [3]] None, Ev_show_dialog ''Error'']\<rparr>) = Ev_show_dialog ''Error'')"
    by (rule merge_failure_persists_nothing [OF h1 h2 h3])
  from h1 h2 h3 c show ?thesis by (simp add: list_all_iff)
qed

text \<open>
  Claim C4. In every run of \<open>start_register\<close> in which \<open>DBIdentify\<close> returns a non-zero
  id for a sample, the handler returns right after the dialog for that sample: this
  identification is the last device call of the run, the run has no \<open>DBMerge\<close>, no
  \<open>INSERT\<close> and no \<open>DBAdd\<close>, the store and the device index are as before, and the
  polls that follow the matched sample are left in the sensor.
\<close>

theorem duplicate_aborts_registration:
  assumes run: "start_register dev s = (out, s')"
    and ev: "Ev_DBIdentify tmp fid score \<in> set (drop (length (trace s)) (trace s'))"
    and match: "fid \<noteq> 0"
  shows "out = Return \<and> db s' = db s \<and> zk_index s' = zk_index s
         \<and> (\<exists>pre img.
               trace s' = trace s @ pre
                 @ [Ev_AcquireFingerprint (Some (tmp, img)), Ev_DBIdentify tmp fid score,
                    Ev_show_dialog ''Fingerprint Exists'']
               \<and> (\<forall>e \<in> set pre. \<not> is_DBMerge e \<and> \<not> is_insert e \<and> \<not> is_DBAdd e)
               \<and> sensor s = polled pre @ Some (tmp, img) # sensor s')"
proof -
  obtain c tr rest where
    cap: "capture_samples (identify dev (zk_index s)) 0 [] (sensor s) = (c, tr, rest)"
    by (cases "capture_samples (identify dev (zk_index s)) 0 [] (sensor s)")
  have quiet: "\<not> is_DBAdd e \<and> \<not> is_insert e \<and> \<not> is_DBMerge e" if "e \<in> set tr" for e
    using cap that by (rule capture_samples_quiet)
  have polls: "sensor s = polled tr @ rest"
    using cap by (rule capture_samples_polled)
  show ?thesis
  proof (cases c)
    case (Captured ts)
    have nomatch: "f = 0" if "Ev_DBIdentify t f sc \<in> set tr" for t f sc
      using cap _ that by (rule capture_samples_no_match) (simp add: Captured)
    obtain r n where mg: "merge dev ts = (r, n)" by (cases "merge dev ts")
    have "\<exists>post. drop (length (trace s)) (trace s') = tr @ post
            \<and> (\<forall>e \<in> set post. is_DBMerge e \<or> is_DBAdd e \<or> is_insert e
                  \<or> e = Ev_show_dialog ''Error'' \<or> e = Ev_show_dialog ''Registration Success'')"
    proof (cases "truthy r")
      case False
      from start_register_merge_failed [OF cap [unfolded Captured] mg False] run
      show ?thesis by auto
    next
      case True
      then obtain m where r: "r = Some m" and m: "m \<noteq> []" by (cases r) auto
      show ?thesis
      proof (cases "db s")
        case None
        from start_register_no_table [OF cap [unfolded Captured] mg [unfolded r] m None] run
        show ?thesis by auto
      next
        case (Some rows)
        then obtain uid where uid: "get_next_user_id s = Inr uid"
          using get_next_user_id_total by blast
        from start_register_merged [OF cap [unfolded Captured] mg [unfolded r] m Some uid] run
        show ?thesis by (auto split: sum.splits if_splits)
      qed
    qed
    then obtain post where new: "drop (length (trace s)) (trace s') = tr @ post"
      and post: "\<forall>e \<in> set post. is_DBMerge e \<or> is_DBAdd e \<or> is_insert e
                  \<or> e = Ev_show_dialog ''Error'' \<or> e = Ev_show_dialog ''Registration Success''"
      by blast
    from ev new have "Ev_DBIdentify tmp fid score \<in> set tr \<or> Ev_DBIdentify tmp fid score \<in> set post"
      by auto
    with nomatch [of tmp fid score] post match show ?thesis by auto
  next
    case Starved
    have nomatch: "f = 0" if "Ev_DBIdentify t f sc \<in> set tr" for t f sc
      using cap _ that by (rule capture_samples_no_match) (simp add: Starved)
    from start_register_not_captured [OF cap] run Starved
    have "drop (length (trace s)) (trace s') = tr" by auto
    with ev nomatch [of tmp fid score] match show ?thesis by simp
  next
    case (Duplicate fid')
    from capture_samples_match [OF cap [unfolded Duplicate]] obtain pre tmp' img score' where
      tr: "tr = pre @ [Ev_AcquireFingerprint (Some (tmp', img)), Ev_DBIdentify tmp' fid' score',
                 Ev_show_dialog ''Fingerprint Exists'']"
      and pre: "\<forall>t f sc. Ev_DBIdentify t f sc \<in> set pre \<longrightarrow> f = 0"
      by blast
    from start_register_not_captured [OF cap] run Duplicate
    have out: "out = Return" and s': "s' = s\<lparr>sensor := rest, trace := trace s @ tr\<rparr>"
      by simp_all
    from s' have new: "drop (length (trace s)) (trace s') = tr" by simp
    from ev new tr pre match have same: "tmp' = tmp" "fid' = fid" "score' = score"
      by auto
    have "trace s' = trace s @ pre
                 @ [Ev_AcquireFingerprint (Some (tmp, img)), Ev_DBIdentify tmp fid score,
                    Ev_show_dialog ''Fingerprint Exists'']"
      using s' tr same by simp
    moreover have "\<forall>e \<in> set pre. \<not> is_DBMerge e \<and> \<not> is_insert e \<and> \<not> is_DBAdd e"
      using quiet tr by auto
    moreover have "sensor s = polled pre @ Some (tmp, img) # sensor s'"
    proof -
      have "polled (pre @ xs) = polled pre @ polled xs" for xs
        by (induction pre rule: polled.induct) simp_all
      with polls tr same s' show ?thesis by simp
    qed
    ultimately show ?thesis using out s' by auto
  qed
qed

theorem duplicate_aborts_registration_witness:
  "start_register matching_device (scanner_with [(1, ''TWFu'', ''2024-05-01 10:00:00'')] [(1, [77, 97, 110])] three_fingers) = (Return, \<lparr>db = Some [(1, ''TWFu'', ''2024-05-01 10:00:00'')], zk_index = [(1, [77, 97, 110])],
       is_connected = True, sensor = [Some ([3], [13]), Some ([4], [14])],
       trace = [Ev_AcquireFingerprint (Some ([1], [11])), Ev_DBIdentify [1] 0 0,
                Ev_AcquireFingerprint None,
                Ev_AcquireFingerprint (Some ([2], [12])), Ev_DBIdentify [2] 1 90,
                Ev_show_dialog ''Fingerprint Exists'']\<rparr>)
   \<and> Ev_DBIdentify [2] 1 90 \<in> set (drop (length (trace (scanner_with [(1, ''TWFu'', ''2024-05-01 10:00:00'')] [(1, [77, 97, 110])] three_fingers))) (trace \<lparr>db = Some [(1, ''TWFu'', ''2024-05-01 10:00:00'')], zk_index = [(1, [77, 97, 110])],
       is_connected = True, sensor = [Some ([3], [13]), Some ([4], [14])],
       trace = [Ev_AcquireFingerprint (Some ([1], [11])), Ev_DBIdentify [1] 0 0,
                Ev_AcquireFingerprint None,
                Ev_AcquireFingerprint (Some ([2], [12])), Ev_DBIdentify [2] 1 90,
                Ev_show_dialog ''Fingerprint Exists'']\<rparr>))
   \<and> (1 :: int) \<noteq> 0
   \<and> (Return = Return \<and> db \<lparr>db = Some [(1, ''TWFu'', ''2024-05-01 10:00:00'')], zk_index = [(1, [77, 97, 110])],
       is_connected = True, sensor = [Some ([3], [13]), Some ([4], [14])],
       trace = [Ev_AcquireFingerprint (Some ([1], [11])), Ev_DBIdentify [1] 0 0,
                Ev_AcquireFingerprint None,
                Ev_AcquireFingerprint (Some ([2], [12])), Ev_DBIdentify [2] 1 90,
                Ev_show_dialog ''Fingerprint Exists'']\<rparr> = db (scanner_with [(1, ''TWFu'', ''2024-05-01 10:00:00'')] [(1, [77, 97, 110])] three_fingers) \<and> zk_index \<lparr>db = Some [(1, ''TWFu'', ''2024-05-01 10:00:00'')], zk_index = [(1, [77, 97, 110])],
       is_connected = True, sensor = [Some ([3], [13]), Some ([4], [14])],
       trace = [Ev_AcquireFingerprint (Some ([1], [11])), Ev_DBIdentify [1] 0 0,
                Ev_AcquireFingerprint None,
                Ev_AcquireFingerprint (Some ([2], [12])), Ev_DBIdentify [2] 1 90,
                Ev_show_dialog ''Fingerprint Exists'']\<rparr> = zk_index (scanner_with [(1, ''TWFu'', ''2024-05-01 10:00:00'')] [(1, [77, 97, 110])] three_fingers)
         \<and> (\<exists>pre img.
               trace \<lparr>db = Some [(1, ''TWFu'', ''2024-05-01 10:00:00'')], zk_index = [(1, [77, 97, 110])],
       is_connected = True, sensor = [Some ([3], [13]), Some ([4], [14])],
       trace = [Ev_AcquireFingerprint (Some ([1], [11])), Ev_DBIdentify [1] 0 0,
                Ev_AcquireFingerprint None,
                Ev_AcquireFingerprint (Some ([2], [12])), Ev_DBIdentify [2] 1 90,
                Ev_show_dialog ''Fingerprint Exists'']\<rparr> = trace (scanner_with [(1, ''TWFu'', ''2024-05-01 10:00:00'')] [(1, [77, 97, 110])] three_fingers) @ pre
                 @ [Ev_AcquireFingerprint (Some ([2], img)), Ev_DBIdentify [2] 1 90,
                    Ev_show_dialog ''Fingerprint Exists'']
               \<and> (\<forall>e \<in> set pre. \<not> is_DBMerge e \<and> \<not> is_insert e \<and> \<not> is_DBAdd e)
               \<and> sensor (scanner_with [(1, ''TWFu'', ''2024-05-01 10:00:00'')] [(1, [77, 97, 110])] three_fingers) = polled pre @ Some ([2], img) # sensor \<lparr>db = Some [(1, ''TWFu'', ''2024-05-01 10:00:00'')], zk_index = [(1, [77, 97, 110])],
       is_connected = True, sensor = [Some ([3], [13]), Some ([4], [14])],
       trace = [Ev_AcquireFingerprint (Some ([1], [11])), Ev_DBIdentify [1] 0 0,
                Ev_AcquireFingerprint None,
                Ev_AcquireFingerprint (Some ([2], [12])), Ev_DBIdentify [2] 1 90,
                Ev_show_dialog ''Fingerprint Exists'']\<rparr>))"
proof -
  have h1: "start_register matching_device (scanner_with [(1, ''TWFu'', ''2024-05-01 10:00:00'')] [(1, [77, 97, 110])] three_fingers) = (Return, \<lparr>db = Some [(1, ''TWFu'', ''2024-05-01 10:00:00'')], zk_index = [(1, [77, 97, 110])],
       is_connected = True, sensor = [Some ([3], [13]), Some ([4], [14])],
       trace = [Ev_AcquireFingerprint (Some ([1], [11])), Ev_DBIdentify [1] 0 0,
                Ev_AcquireFingerprint None,
                Ev_AcquireFingerprint (Some ([2], [12])), Ev_DBIdentify [2] 1 90,
                Ev_show_dialog ''Fingerprint Exists'']\<rparr>)"
    by (simp add: start_register_def matching_device_def quiet_device_def scanner_with_def
        capture_known_finger)
  have h2: "Ev_DBIdentify [2] 1 90 \<in> set (drop (length (trace (scanner_with [(1, ''TWFu'', ''2024-05-01 10:00:00'')] [(1, [77, 97, 110])] three_fingers))) (trace \<lparr>db = Some [(1, ''TWFu'', ''2024-05-01 10:00:00'')], zk_index = [(1, [77, 97, 110])],
       is_connected = True, sensor = [Some ([3], [13]), Some ([4], [14])],
       trace = [Ev_AcquireFingerprint (Some ([1], [11])), Ev_DBIdentify [1] 0 0,
                Ev_AcquireFingerprint None,
                Ev_AcquireFingerprint (Some ([2], [12])), Ev_DBIdentify [2] 1 90,
                Ev_show_dialog ''Fingerprint Exists'']\<rparr>))"
    by (simp add: scanner_with_def)
  have h3: "(1 :: int) \<noteq> 0" by simp
  have c: "(Return = Return \<and> db \<lparr>db = Some [(1, ''TWFu'', ''2024-05-01 10:00:00'')], zk_index = [(1, [77, 97, 110])],
       is_connected = True, sensor = [Some ([3], [13]), Some ([4], [14])],
       trace = [Ev_AcquireFingerprint (Some ([1], [11])), Ev_DBIdentify [1] 0 0,
                Ev_AcquireFingerprint None,
                Ev_AcquireFingerprint (Some ([2], [12])), Ev_DBIdentify [2] 1 90,
                Ev_show_dialog ''Fingerprint Exists'']\<rparr> = db (scanner_with [(1, ''TWFu'', ''2024-05-01 10:00:00'')] [(1, [77, 97, 110])] three_fingers) \<and> zk_index \<lparr>db = Some [(1, ''TWFu'', ''2024-05-01 10:00:00'')], zk_index = [(1, [77, 97, 110])],
       is_connected = True, sensor = [Some ([3], [13]), Some ([4], [14])],
       trace = [Ev_AcquireFingerprint (Some ([1], [11])), Ev_DBIdentify [1] 0 0,
                Ev_AcquireFingerprint None,
                Ev_AcquireFingerprint (Some ([2], [12])), Ev_DBIdentify [2] 1 90,
                Ev_show_dialog ''Fingerprint Exists'']\<rparr> = zk_index (scanner_with [(1, ''TWFu'', ''2024-05-01 10:00:00'')] [(1, [77, 97, 110])] three_fingers)
         \<and> (\<exists>pre img.
               trace \<lparr>db = Some [(1, ''TWFu'', ''2024-05-01 10:00:00'')], zk_index = [(1, [77, 97, 110])],
       is_connected = True, sensor = [Some ([3], [13]), Some ([4], [14])],
       trace = [Ev_AcquireFingerprint (Some ([1], [11])), Ev_DBIdentify [1] 0 0,
                Ev_AcquireFingerprint None,
                Ev_AcquireFingerprint (Some ([2], [12])), Ev_DBIdentify [2] 1 90,
                Ev_show_dialog ''Fingerprint Exists'']\<rparr> = trace (scanner_with [(1, ''TWFu'', ''2024-05-01 10:00:00'')] [(1, [77, 97, 110])] three_fingers) @ pre
                 @ [Ev_AcquireFingerprint (Some ([2], img)), Ev_DBIdentify [2] 1 90,
                    Ev_show_dialog ''Fingerprint Exists'']
               \<and> (\<forall>e \<in> set pre. \<not> is_DBMerge e \<and> \<not> is_insert e \<and> \<not> is_DBAdd e)
               \<and> sensor (scanner_with [(1, ''TWFu'', ''2024-05-01 10:00:00'')] [(1, [77, 97, 110])] three_fingers) = polled pre @ Some ([2], img) # sensor \<lparr>db = Some [(1, ''TWFu'', ''2024-05-01 10:00:00'')], zk_index = [(1, [77, 97, 110])],
       is_connected = True, sensor = [Some ([3], [13]), Some ([4], [14])],
       trace = [Ev_AcquireFingerprint (Some ([1], [11])), Ev_DBIdentify [1] 0 0,
                Ev_AcquireFingerprint None,
                Ev_AcquireFingerprint (Some ([2], [12])), Ev_DBIdentify [2] 1 90,
                Ev_show_dialog ''Fingerprint Exists'']\<rparr>))"
    by (rule duplicate_aborts_registration [OF h1 h2 h3])
  from h1 h2 h3 c show ?thesis by blast
qed






text \<open>
  The helper \<open>register_new_fingerprint\<close>, which no handler calls, has the same order,
  and on a failed merge it raises \<open>TypeError\<close> at \<open>bytes(regTemp)\<close> before its own test
  of \<open>regTemp is None\<close>; the store and the device index are untouched then.
\<close>

lemma capture_fingerprints_keeps_store:
  "capture_fingerprints dev s = (r, s1) \<Longrightarrow> db s1 = db s \<and> zk_index s1 = zk_index s"
  by (auto simp add: capture_fingerprints_def emit_def split: prod.splits option.splits)

lemma register_new_fingerprint_merge_failed:
  assumes "get_next_user_id s = Inr uid" and "capture_fingerprints dev s = (Some None, s1)"
  shows "register_new_fingerprint dev s = (Raise TypeError, s1)
         \<and> db s1 = db s \<and> zk_index s1 = zk_index s"
  using assms capture_fingerprints_keeps_store [OF assms(2)]
  by (simp add: register_new_fingerprint_def)

lemma register_new_fingerprint_adds_first:
  assumes "get_next_user_id s = Inr uid" and "capture_fingerprints dev s = (Some (Some m), s1)"
  shows "\<exists>ok. trace (snd (register_new_fingerprint dev s))
                = trace s1 @ [Ev_DBAdd uid m, Ev_insert uid (b64encode m) ok]
              \<and> zk_index (snd (register_new_fingerprint dev s)) = zk_index s @ [(uid, m)]"
  using assms capture_fingerprints_keeps_store [OF assms(2)]
  by (auto simp add: register_new_fingerprint_def save_fingerprint_to_db_def
      add_fingerprint_to_zkfp_def emit_def split: sum.splits)

end
